theory Spec2Isabelle
  imports Main
begin

section \<open>Strings of the host language\<close>

text \<open>
  A string is a list of code units; the model covers the code units below 256, where a
  \<^typ>\<open>char\<close> is one code unit. On these, \<open>String.prototype.trim\<close> removes the
  white space and line terminators TAB, LF, VT, FF, CR, SP and NBSP from both ends, and
  \<open>String.prototype.toLowerCase\<close> maps \<open>A\<close>..\<open>Z\<close> and the capital letters of the
  upper half (192..222 without the multiplication sign 215) to the code unit 32 above.
\<close>

definition isWhiteSpace :: "char \<Rightarrow> bool" where
  "isWhiteSpace c =
     (let n = (of_char c :: nat) in (9 \<le> n \<and> n \<le> 13) \<or> n = 32 \<or> n = 160)"

definition trim :: "string \<Rightarrow> string" where
  "trim s = rev (dropWhile isWhiteSpace (rev (dropWhile isWhiteSpace s)))"

definition toLowerCase_char :: "char \<Rightarrow> char" where
  "toLowerCase_char c =
     (let n = (of_char c :: nat) in
      if (65 \<le> n \<and> n \<le> 90) \<or> (192 \<le> n \<and> n \<le> 222 \<and> n \<noteq> 215)
      then char_of (n + 32) else c)"

definition toLowerCase :: "string \<Rightarrow> string" where
  "toLowerCase s = map toLowerCase_char s"

section \<open>Validation layer (server.js, the validator chains of POST /sign-up and PUT /users/:id)\<close>

text \<open>
  \<open>req.body\<close> is the parsed JSON object: a dictionary from field names to values. The
  model covers the bodies whose four fields are absent (or null) or JSON strings.
  The validators see a field through the library's \<open>toString\<close>, which turns an absent
  field into the empty string.
\<close>

type_synonym body = "string \<rightharpoonup> string"

fun toString :: "string option \<Rightarrow> string" where
  "toString None = []"
| "toString (Some s) = s"

text \<open>\<open>notEmpty()\<close>: the string has at least one code unit; blanks count.\<close>

definition notEmpty :: "string \<Rightarrow> bool" where
  "notEmpty s = (s \<noteq> [])"

text \<open>
  \<open>isEmail()\<close> is the validator library's test of the address syntax. Its verdict on a
  non-empty string is a parameter of the model, \<open>isEmail\<close>; the empty string is no
  address.
\<close>

definition isEmail_chain :: "(string \<Rightarrow> bool) \<Rightarrow> string \<Rightarrow> bool" where
  "isEmail_chain isEmail s = (s \<noteq> [] \<and> isEmail s)"

text \<open>One entry of \<open>errors.array()\<close>: the field, the message, and the offending value.\<close>

record verror =
  param :: string
  msg :: string
  val :: "string option"

text \<open>
  The four chains, in the order of the route definition: the field, its single validator
  and the message of \<open>withMessage\<close>. Both routes list the same four.
\<close>

definition chains :: "(string \<Rightarrow> bool) \<Rightarrow> (string \<times> (string \<Rightarrow> bool) \<times> string) list" where
  "chains isEmail =
     [(''name'', notEmpty, ''Name is required.''),
      (''surname'', notEmpty, ''Surname is required.''),
      (''email'', isEmail_chain isEmail, ''Valid email is required.''),
      (''jobTitle'', notEmpty, ''Job title is required.'')]"

text \<open>
  \<open>validationResult(req).array()\<close>: every chain runs on its field, whatever the others
  found, and each failing chain contributes its entry.
\<close>

definition run_chain :: "body \<Rightarrow> string \<times> (string \<Rightarrow> bool) \<times> string \<Rightarrow> verror list" where
  "run_chain b ch =
     (case ch of (f, ok, m) \<Rightarrow>
        if ok (toString (b f)) then [] else [\<lparr>param = f, msg = m, val = b f\<rparr>])"

definition validationResult :: "(string \<Rightarrow> bool) \<Rightarrow> body \<Rightarrow> verror list" where
  "validationResult isEmail b = concat (map (run_chain b) (chains isEmail))"

section \<open>User model (User.js)\<close>

text \<open>
  The four editable paths of the schema. A request carries them as values that may be
  absent; a stored document carries strings.
\<close>

record 'a paths =
  name :: 'a
  surname :: 'a
  email :: 'a
  jobTitle :: 'a

datatype objectId = ObjectId string

text \<open>A document of the model: the paths and \<open>_id\<close>.\<close>

record 'a doc = "'a paths" +
  doc_id :: objectId

text \<open>A stored document: \<open>timestamps: true\<close> adds \<open>createdAt\<close> and \<open>updatedAt\<close>.\<close>

record user = "string doc" +
  createdAt :: nat
  updatedAt :: nat

text \<open>
  What the storage layer throws: a value that does not cast to the type of its path, the
  paths that fail the schema's validators, or the unique index that rejects a write.
  A lost connection to the store is outside the model.
\<close>

datatype error = CastError string | ValidationError "string list" | DuplicateKey string

text \<open>
  The setters of the schema: \<open>trim: true\<close> on all four paths, \<open>lowercase: true\<close> before it
  on \<open>email\<close>. They run when a document is built, when an update is cast and when a query
  filter is cast (the object-document mapper does so from its version 5 on, the version
  that the connection options of server.js belong to).
\<close>

definition email_setters :: "string \<Rightarrow> string" where
  "email_setters v = trim (toLowerCase v)"

definition apply_setters :: "(string option, 'z) paths_scheme \<Rightarrow> string option paths" where
  "apply_setters f =
     \<lparr>name = map_option trim (name f), surname = map_option trim (surname f),
      email = map_option email_setters (email f), jobTitle = map_option trim (jobTitle f)\<rparr>"

text \<open>\<open>required: true\<close> on a string path: the value is set and is not the empty string.\<close>

definition checkRequired :: "string option \<Rightarrow> bool" where
  "checkRequired v = (case v of None \<Rightarrow> False | Some s \<Rightarrow> s \<noteq> [])"

definition required_failures :: "(string option, 'z) paths_scheme \<Rightarrow> string list" where
  "required_failures d =
     map fst (filter (\<lambda>(p, v). \<not> checkRequired v)
       [(''name'', name d), (''surname'', surname d), (''email'', email d),
        (''jobTitle'', jobTitle d)])"

text \<open>\<open>new User({...})\<close>: the setters run on the given paths and the document gets its \<open>_id\<close>.\<close>

definition new_User :: "objectId \<Rightarrow> string option paths \<Rightarrow> string option doc" where
  "new_User oid f =
     (let d = apply_setters f
      in \<lparr>name = name d, surname = surname d, email = email d, jobTitle = jobTitle d,
          doc_id = oid\<rparr>)"

text \<open>
  \<open>save()\<close> on a new document: the schema's validators run first; then the document is
  inserted with both timestamps set, unless the index on \<open>_id\<close> or the unique index on
  \<open>email\<close> already holds its key. The collection is the list of its documents.
\<close>

definition save :: "nat \<Rightarrow> string option doc \<Rightarrow> user list \<Rightarrow> error + (user \<times> user list)" where
  "save now d db =
     (if required_failures d \<noteq> [] then Inl (ValidationError (required_failures d))
      else
        let u = \<lparr>name = the (name d), surname = the (surname d), email = the (email d),
                 jobTitle = the (jobTitle d), doc_id = doc_id d,
                 createdAt = now, updatedAt = now\<rparr>
        in if doc_id u \<in> set (map doc_id db) then Inl (DuplicateKey ''_id'')
           else if email u \<in> set (map email db) then Inl (DuplicateKey ''email'')
           else Inr (u, db @ [u]))"

text \<open>
  \<open>findOne({ email })\<close>: the filter value goes through the setters of its path. A filter
  on an undefined value matches no document of this collection.
\<close>

definition findOne_email :: "string option \<Rightarrow> user list \<Rightarrow> user option" where
  "findOne_email e db =
     (case e of None \<Rightarrow> None
      | Some s \<Rightarrow> find (\<lambda>u. email u = email_setters s) db)"

text \<open>
  Casting a request's \<open>:id\<close> to an ObjectId is the driver's; it is a parameter of the model,
  \<open>castObjectId\<close>, which gives \<open>None\<close> where the driver throws.
  \<open>findOne({ email, _id: { $ne: id } })\<close> casts both filter values.
\<close>

definition findOne_email_ne_id ::
  "(string \<Rightarrow> objectId option) \<Rightarrow> string option \<Rightarrow> string \<Rightarrow> user list \<Rightarrow> error + user option" where
  "findOne_email_ne_id castObjectId e id' db =
     (case castObjectId id' of None \<Rightarrow> Inl (CastError id')
      | Some i \<Rightarrow>
          Inr (case e of None \<Rightarrow> None
               | Some s \<Rightarrow> find (\<lambda>u. email u = email_setters s \<and> doc_id u \<noteq> i) db))"

definition findById ::
  "(string \<Rightarrow> objectId option) \<Rightarrow> string \<Rightarrow> user list \<Rightarrow> error + user option" where
  "findById castObjectId id' db =
     (case castObjectId id' of None \<Rightarrow> Inl (CastError id')
      | Some i \<Rightarrow> Inr (find (\<lambda>u. doc_id u = i) db))"

text \<open>
  \<open>findByIdAndUpdate(id, {...}, { new: true, runValidators: true })\<close>: the id and the update
  are cast, the validators run on the update, and the first document with that \<open>_id\<close> gets
  the four paths and a new \<open>updatedAt\<close>, unless its new email is the key of another
  document in the unique index; an update that keeps the email leaves the index alone.
  The result is the document after the update.
\<close>

definition findByIdAndUpdate ::
  "(string \<Rightarrow> objectId option) \<Rightarrow> nat \<Rightarrow> string \<Rightarrow> string option paths \<Rightarrow> user list
     \<Rightarrow> error + (user option \<times> user list)" where
  "findByIdAndUpdate castObjectId now id' f db =
     (case castObjectId id' of None \<Rightarrow> Inl (CastError id')
      | Some i \<Rightarrow>
          let d = apply_setters f in
          if required_failures d \<noteq> [] then Inl (ValidationError (required_failures d))
          else
            (case List.extract (\<lambda>u. doc_id u = i) db of
               None \<Rightarrow> Inr (None, db)
             | Some (before, u, after) \<Rightarrow>
                 let u' = u\<lparr>name := the (name d), surname := the (surname d),
                            email := the (email d), jobTitle := the (jobTitle d),
                            updatedAt := now\<rparr>
                 in if email u' \<noteq> email u \<and> email u' \<in> set (map email (before @ after))
                    then Inl (DuplicateKey ''email'')
                    else Inr (Some u', before @ u' # after)))"

definition findByIdAndDelete ::
  "(string \<Rightarrow> objectId option) \<Rightarrow> string \<Rightarrow> user list \<Rightarrow> error + (user option \<times> user list)" where
  "findByIdAndDelete castObjectId id' db =
     (case castObjectId id' of None \<Rightarrow> Inl (CastError id')
      | Some i \<Rightarrow>
          (case List.extract (\<lambda>u. doc_id u = i) db of
             None \<Rightarrow> Inr (None, db)
           | Some (before, u, after) \<Rightarrow> Inr (Some u, before @ after)))"

section \<open>Request handlers (server.js)\<close>

text \<open>
  A response is the status and the JSON payload. \<open>ServerError e\<close> is the payload of the
  catch blocks, \<open>{ message: 'Server error', error: error.message }\<close>, for the error \<open>e\<close>.
\<close>

datatype payload =
    Errors "verror list"
  | Message string
  | ServerError error
  | UserDoc user
  | UserDocs "user list"

record response =
  status :: nat
  json :: payload

text \<open>
  A handler takes the collection as it is when the request arrives and returns the response
  with the collection as the handler leaves it. The two handlers that await the store twice
  take \<open>others\<close>: what the other requests do to the collection between the first await and
  the second; \<open>others = (\<lambda>db. db)\<close> is a request served alone. The fresh \<open>_id\<close> of
  \<open>new User\<close> and the clock of the timestamps come with the request.
\<close>

text \<open>\<open>const { name, surname, email, jobTitle } = req.body\<close>.\<close>

definition destructure :: "body \<Rightarrow> string option paths" where
  "destructure b =
     \<lparr>name = b ''name'', surname = b ''surname'', email = b ''email'',
      jobTitle = b ''jobTitle''\<rparr>"

definition post_sign_up ::
  "(string \<Rightarrow> bool) \<Rightarrow> objectId \<Rightarrow> nat \<Rightarrow> (user list \<Rightarrow> user list) \<Rightarrow> body \<Rightarrow> user list
     \<Rightarrow> response \<times> user list" where
  "post_sign_up isEmail oid now others b db =
     (let errors = validationResult isEmail b in
      if errors \<noteq> [] then (\<lparr>status = 400, json = Errors errors\<rparr>, db)
      else
        let f = destructure b
        in case findOne_email (email f) db of
             Some existingUser \<Rightarrow>
               (\<lparr>status = 400, json = Message ''User with this email already exists.''\<rparr>, db)
           | None \<Rightarrow>
               (case save now (new_User oid f) (others db) of
                  Inl error \<Rightarrow> (\<lparr>status = 500, json = ServerError error\<rparr>, others db)
                | Inr (savedUser, db') \<Rightarrow> (\<lparr>status = 201, json = UserDoc savedUser\<rparr>, db')))"

definition get_users :: "user list \<Rightarrow> response \<times> user list" where
  "get_users db = (\<lparr>status = 200, json = UserDocs db\<rparr>, db)"

definition get_user ::
  "(string \<Rightarrow> objectId option) \<Rightarrow> string \<Rightarrow> user list \<Rightarrow> response \<times> user list" where
  "get_user castObjectId id' db =
     (case findById castObjectId id' db of
        Inl error \<Rightarrow> (\<lparr>status = 500, json = ServerError error\<rparr>, db)
      | Inr None \<Rightarrow> (\<lparr>status = 404, json = Message ''User not found.''\<rparr>, db)
      | Inr (Some user) \<Rightarrow> (\<lparr>status = 200, json = UserDoc user\<rparr>, db))"

definition put_user ::
  "(string \<Rightarrow> bool) \<Rightarrow> (string \<Rightarrow> objectId option) \<Rightarrow> nat \<Rightarrow> (user list \<Rightarrow> user list)
     \<Rightarrow> string \<Rightarrow> body \<Rightarrow> user list \<Rightarrow> response \<times> user list" where
  "put_user isEmail castObjectId now others id' b db =
     (let errors = validationResult isEmail b in
      if errors \<noteq> [] then (\<lparr>status = 400, json = Errors errors\<rparr>, db)
      else
        let f = destructure b
        in case findOne_email_ne_id castObjectId (email f) id' db of
             Inl error \<Rightarrow> (\<lparr>status = 500, json = ServerError error\<rparr>, db)
           | Inr (Some existingUser) \<Rightarrow>
               (\<lparr>status = 400,
                 json = Message ''Another user with this email already exists.''\<rparr>, db)
           | Inr None \<Rightarrow>
               (case findByIdAndUpdate castObjectId now id' f (others db) of
                  Inl error \<Rightarrow> (\<lparr>status = 500, json = ServerError error\<rparr>, others db)
                | Inr (None, db') \<Rightarrow>
                    (\<lparr>status = 404, json = Message ''User not found.''\<rparr>, db')
                | Inr (Some updatedUser, db') \<Rightarrow>
                    (\<lparr>status = 200, json = UserDoc updatedUser\<rparr>, db')))"

definition delete_user ::
  "(string \<Rightarrow> objectId option) \<Rightarrow> string \<Rightarrow> user list \<Rightarrow> response \<times> user list" where
  "delete_user castObjectId id' db =
     (case findByIdAndDelete castObjectId id' db of
        Inl error \<Rightarrow> (\<lparr>status = 500, json = ServerError error\<rparr>, db)
      | Inr (None, db') \<Rightarrow> (\<lparr>status = 404, json = Message ''User not found.''\<rparr>, db')
      | Inr (Some deletedUser, db') \<Rightarrow>
          (\<lparr>status = 200, json = Message ''User deleted successfully.''\<rparr>, db'))"

section \<open>The collection over time\<close>

text \<open>
  The collection starts empty, with the unique index on \<open>email\<close> in place, and changes
  only through the handlers. Between the two awaits of a handler the other requests may
  bring the collection to any state that they can reach.
\<close>

inductive reachable ::
  "(string \<Rightarrow> bool) \<Rightarrow> (string \<Rightarrow> objectId option) \<Rightarrow> user list \<Rightarrow> bool"
  for isEmail :: "string \<Rightarrow> bool" and castObjectId :: "string \<Rightarrow> objectId option" where
  start: "reachable isEmail castObjectId []"
| create:
    "reachable isEmail castObjectId db \<Longrightarrow> reachable isEmail castObjectId (others db) \<Longrightarrow>
     reachable isEmail castObjectId (snd (post_sign_up isEmail oid now others b db))"
| update:
    "reachable isEmail castObjectId db \<Longrightarrow> reachable isEmail castObjectId (others db) \<Longrightarrow>
     reachable isEmail castObjectId (snd (put_user isEmail castObjectId now others id' b db))"
| delete:
    "reachable isEmail castObjectId db \<Longrightarrow>
     reachable isEmail castObjectId (snd (delete_user castObjectId id' db))"

text \<open>
  The invariant of the collection: every stored email is a fixed point of the setters of
  its path, and the stored emails are pairwise different.
\<close>

definition store_inv :: "user list \<Rightarrow> bool" where
  "store_inv db =
     (list_all (\<lambda>u. email_setters (email u) = email u) db \<and> distinct (map email db))"

section \<open>The words of the specification\<close>

text \<open>
  A field violates the rules of the validation layer when it is missing or empty, or, for
  \<open>email\<close>, when it is no valid address.
\<close>

definition field_names :: "string list" where
  "field_names = [''name'', ''surname'', ''email'', ''jobTitle'']"

definition violates :: "(string \<Rightarrow> bool) \<Rightarrow> body \<Rightarrow> string \<Rightarrow> bool" where
  "violates isEmail b f =
     (case b f of None \<Rightarrow> True
      | Some s \<Rightarrow> s = [] \<or> (f = ''email'' \<and> \<not> isEmail s))"

text \<open>A string without white space at either end.\<close>

definition no_outer_space :: "string \<Rightarrow> bool" where
  "no_outer_space s = (s = [] \<or> (\<not> isWhiteSpace (hd s) \<and> \<not> isWhiteSpace (last s)))"

text \<open>The normalized email of a record: lowercased and trimmed.\<close>

definition normalized_email :: "user \<Rightarrow> string" where
  "normalized_email u = trim (toLowerCase (email u))"

text \<open>
  A record stored from a request: each path is the request's value after the setters of
  the path. A trimmed record has no white space at either end of any of the four paths.
\<close>

definition stored_from :: "body \<Rightarrow> user \<Rightarrow> bool" where
  "stored_from b u =
     (map_option trim (b ''name'') = Some (name u)
      \<and> map_option trim (b ''surname'') = Some (surname u)
      \<and> map_option email_setters (b ''email'') = Some (email u)
      \<and> map_option trim (b ''jobTitle'') = Some (jobTitle u))"

definition trimmed :: "user \<Rightarrow> bool" where
  "trimmed u =
     (no_outer_space (name u) \<and> no_outer_space (surname u) \<and> no_outer_space (email u)
      \<and> no_outer_space (jobTitle u))"

section \<open>Example requests\<close>

text \<open>
  The examples need the two library parameters only on the strings that occur in them.
  \<open>example_isEmail\<close> accepts the three addresses listed in it, which the validator
  library accepts, and rejects the other strings of the examples, which have no \<open>@\<close>.
  \<open>hexObjectId\<close> casts a string of 24 hexadecimal digits to the ObjectId of these digits,
  as every version of the driver does; the only other id of the examples is \<open>abc\<close>, on
  which every version of the driver throws.
\<close>

definition example_isEmail :: "string \<Rightarrow> bool" where
  "example_isEmail s =
     (s \<in> set [''ann@example.com'', ''Ann@Example.COM'', ''bob@example.com''])"

definition isHexDigit :: "char \<Rightarrow> bool" where
  "isHexDigit c =
     (let n = (of_char c :: nat)
      in (48 \<le> n \<and> n \<le> 57) \<or> (65 \<le> n \<and> n \<le> 70) \<or> (97 \<le> n \<and> n \<le> 102))"

definition hexObjectId :: "string \<Rightarrow> objectId option" where
  "hexObjectId s =
     (if length s = 24 \<and> list_all isHexDigit s then Some (ObjectId (toLowerCase s))
      else None)"

definition oid1 :: objectId where
  "oid1 = ObjectId ''65f000000000000000000001''"

definition oid2 :: objectId where
  "oid2 = ObjectId ''65f000000000000000000002''"

definition ann :: body where
  "ann = [''name'' \<mapsto> '' Ann'', ''surname'' \<mapsto> ''Lee '', ''email'' \<mapsto> ''Ann@Example.COM'',
          ''jobTitle'' \<mapsto> ''Engineer'']"

definition ann_stored :: user where
  "ann_stored =
     \<lparr>name = ''Ann'', surname = ''Lee'', email = ''ann@example.com'',
      jobTitle = ''Engineer'', doc_id = oid1, createdAt = 7, updatedAt = 7\<rparr>"

definition bob_stored :: user where
  "bob_stored =
     \<lparr>name = ''Bob'', surname = ''Ray'', email = ''bob@example.com'',
      jobTitle = ''Clerk'', doc_id = oid2, createdAt = 9, updatedAt = 9\<rparr>"

definition bad :: body where
  "bad = [''name'' \<mapsto> [], ''email'' \<mapsto> ''not-an-email'', ''jobTitle'' \<mapsto> ''Clerk'']"

definition blank_name :: body where
  "blank_name = ann(''name'' \<mapsto> ''  '')"

definition bob :: body where
  "bob = [''name'' \<mapsto> ''Bob'', ''surname'' \<mapsto> ''Ray'', ''email'' \<mapsto> ''bob@example.com'',
          ''jobTitle'' \<mapsto> ''Clerk'']"

definition blank_bob :: body where
  "blank_bob = bob(''name'' \<mapsto> ''  '')"

text \<open>Another request that signs Ann up while the request at hand awaits the store.\<close>

definition concurrent_sign_up :: "user list \<Rightarrow> user list" where
  "concurrent_sign_up db = snd (post_sign_up example_isEmail oid1 7 id ann db)"

definition unknown_id :: string where
  "unknown_id = ''65F0000000000000000000AA''"

section \<open>String facts\<close>

lemma isWhiteSpace_toLowerCase_char [simp]:
  "isWhiteSpace (toLowerCase_char c) = isWhiteSpace c"
  by (auto simp: isWhiteSpace_def toLowerCase_char_def Let_def)

lemma toLowerCase_char_idem [simp]:
  "toLowerCase_char (toLowerCase_char c) = toLowerCase_char c"
  by (auto simp: toLowerCase_char_def Let_def)

lemma toLowerCase_idem [simp]: "toLowerCase (toLowerCase s) = toLowerCase s"
  by (simp add: toLowerCase_def)

lemma dropWhile_isWhiteSpace_lower:
  "dropWhile isWhiteSpace (map toLowerCase_char s) = map toLowerCase_char (dropWhile isWhiteSpace s)"
  by (induction s) simp_all

lemma trim_toLowerCase: "trim (toLowerCase s) = toLowerCase (trim s)"
  by (simp add: trim_def toLowerCase_def dropWhile_isWhiteSpace_lower rev_map)

lemma trim_Nil [simp]: "trim [] = []"
  by (simp add: trim_def)

lemma trim_hd: "trim s \<noteq> [] \<Longrightarrow> \<not> isWhiteSpace (hd (trim s))"
  by (metis (no_types, lifting) dropWhile_eq_Nil_conv dropWhile_eq_self_iff
    dropWhile_last hd_dropWhile last_rev rev_is_Nil_conv rev_rev_ident
    trim_def)

lemma trim_last: "trim s \<noteq> [] \<Longrightarrow> \<not> isWhiteSpace (last (trim s))"
  by (metis trim_def rev_rev_ident hd_rev hd_dropWhile rev_is_Nil_conv)

lemma trim_fixed:
  "s = [] \<or> (\<not> isWhiteSpace (hd s) \<and> \<not> isWhiteSpace (last s)) \<Longrightarrow> trim s = s"
  by (metis dropWhile_eq_self_iff hd_rev rev_swap trim_Nil trim_def)

lemma trim_idem [simp]: "trim (trim s) = trim s"
  by (rule trim_fixed) (use trim_hd trim_last in blast)

lemma trim_decomp:
  "\<exists>l r. s = l @ trim s @ r \<and> (\<forall>c\<in>set l. isWhiteSpace c) \<and> (\<forall>c\<in>set r. isWhiteSpace c)"
proof -
  let ?t = "dropWhile isWhiteSpace s"
  let ?r = "rev (takeWhile isWhiteSpace (rev ?t))"
  have t: "?t = trim s @ ?r"
    unfolding trim_def by (metis rev_append rev_rev_ident takeWhile_dropWhile_id)
  have "s = takeWhile isWhiteSpace s @ ?t" by simp
  with t have "s = takeWhile isWhiteSpace s @ trim s @ ?r" by simp
  moreover have "\<forall>c\<in>set (takeWhile isWhiteSpace s). isWhiteSpace c"
    by (auto dest: set_takeWhileD)
  moreover have "\<forall>c\<in>set ?r. isWhiteSpace c"
    by (auto dest: set_takeWhileD)
  ultimately show ?thesis by blast
qed

lemma email_setters_idem [simp]: "email_setters (email_setters v) = email_setters v"
  by (simp add: email_setters_def trim_toLowerCase)

lemma email_setters_Nil [simp]: "email_setters [] = []"
  by (simp add: email_setters_def toLowerCase_def)

section \<open>Validation layer: facts\<close>

lemma validationResult_params:
  "map param (validationResult isEmail b) = filter (violates isEmail b) field_names"
  by (simp add: validationResult_def chains_def run_chain_def field_names_def violates_def
      notEmpty_def isEmail_chain_def split: option.splits)

lemma validationResult_Nil_iff:
  "validationResult isEmail b = [] \<longleftrightarrow> (\<forall>f\<in>set field_names. \<not> violates isEmail b f)"
proof -
  have "validationResult isEmail b = [] \<longleftrightarrow> map param (validationResult isEmail b) = []"
    by simp
  also have "\<dots> \<longleftrightarrow> (\<forall>f\<in>set field_names. \<not> violates isEmail b f)"
    unfolding validationResult_params by (simp add: filter_empty_conv)
  finally show ?thesis .
qed

lemma post_sign_up_invalid:
  "validationResult isEmail b \<noteq> [] \<Longrightarrow>
   post_sign_up isEmail oid now others b db =
     (\<lparr>status = 400, json = Errors (validationResult isEmail b)\<rparr>, db)"
  by (simp add: post_sign_up_def Let_def)

lemma put_user_invalid:
  "validationResult isEmail b \<noteq> [] \<Longrightarrow>
   put_user isEmail castObjectId now others id' b db =
     (\<lparr>status = 400, json = Errors (validationResult isEmail b)\<rparr>, db)"
  by (simp add: put_user_def Let_def)

section \<open>Store facts\<close>

lemma findOne_email_None_iff:
  "findOne_email (Some e) db = None \<longleftrightarrow> email_setters e \<notin> set (map email db)"
  by (force simp: findOne_email_def find_None_iff)

lemma find_ne_unknown:
  "i \<notin> set (map doc_id db) \<Longrightarrow> find (\<lambda>u. P u \<and> doc_id u \<noteq> i) db = find P db"
  by (induction db) auto

lemma extract_unknown:
  "i \<notin> set (map doc_id db) \<Longrightarrow> List.extract (\<lambda>u. doc_id u = i) db = None"
  by (auto simp: extract_None_iff)

lemma find_unknown:
  "i \<notin> set (map doc_id db) \<Longrightarrow> find (\<lambda>u. doc_id u = i) db = None"
  by (auto simp: find_None_iff)

lemma post_sign_up_existing:
  "validationResult isEmail b = [] \<Longrightarrow> findOne_email (b ''email'') db = Some v \<Longrightarrow>
   post_sign_up isEmail oid now others b db =
     (\<lparr>status = 400, json = Message ''User with this email already exists.''\<rparr>, db)"
  by (simp add: post_sign_up_def destructure_def)

lemma post_sign_up_save_error:
  "validationResult isEmail b = [] \<Longrightarrow> findOne_email (b ''email'') db = None \<Longrightarrow>
   save now (new_User oid (destructure b)) (others db) = Inl err \<Longrightarrow>
   post_sign_up isEmail oid now others b db =
     (\<lparr>status = 500, json = ServerError err\<rparr>, others db)"
  by (simp add: post_sign_up_def destructure_def)

lemma post_sign_up_saved:
  "validationResult isEmail b = [] \<Longrightarrow> findOne_email (b ''email'') db = None \<Longrightarrow>
   save now (new_User oid (destructure b)) (others db) = Inr (u, db') \<Longrightarrow>
   post_sign_up isEmail oid now others b db = (\<lparr>status = 201, json = UserDoc u\<rparr>, db')"
  by (simp add: post_sign_up_def destructure_def)

lemma get_user_malformed:
  "castObjectId id' = None \<Longrightarrow>
   get_user castObjectId id' db = (\<lparr>status = 500, json = ServerError (CastError id')\<rparr>, db)"
  by (simp add: get_user_def findById_def)

lemma delete_user_malformed:
  "castObjectId id' = None \<Longrightarrow>
   delete_user castObjectId id' db = (\<lparr>status = 500, json = ServerError (CastError id')\<rparr>, db)"
  by (simp add: delete_user_def findByIdAndDelete_def)

lemma put_user_malformed:
  "castObjectId id' = None \<Longrightarrow> validationResult isEmail b = [] \<Longrightarrow>
   put_user isEmail castObjectId now others id' b db =
     (\<lparr>status = 500, json = ServerError (CastError id')\<rparr>, db)"
  by (simp add: put_user_def findOne_email_ne_id_def)

lemma get_user_unknown:
  "castObjectId id' = Some i \<Longrightarrow> i \<notin> set (map doc_id db) \<Longrightarrow>
   get_user castObjectId id' db = (\<lparr>status = 404, json = Message ''User not found.''\<rparr>, db)"
  by (simp add: get_user_def findById_def find_unknown)

lemma delete_user_unknown:
  "castObjectId id' = Some i \<Longrightarrow> i \<notin> set (map doc_id db) \<Longrightarrow>
   delete_user castObjectId id' db = (\<lparr>status = 404, json = Message ''User not found.''\<rparr>, db)"
  by (simp add: delete_user_def findByIdAndDelete_def extract_unknown)

lemma findOne_email_ne_id_unknown:
  "castObjectId id' = Some i \<Longrightarrow> i \<notin> set (map doc_id db) \<Longrightarrow>
   findOne_email_ne_id castObjectId e id' db = Inr (findOne_email e db)"
  by (simp add: findOne_email_ne_id_def findOne_email_def find_ne_unknown split: option.splits)

lemma put_user_unknown:
  "castObjectId id' = Some i \<Longrightarrow> i \<notin> set (map doc_id db) \<Longrightarrow>
   validationResult isEmail b = [] \<Longrightarrow> required_failures (apply_setters (destructure b)) = [] \<Longrightarrow>
   findOne_email (b ''email'') db = None \<Longrightarrow> i \<notin> set (map doc_id (others db)) \<Longrightarrow>
   put_user isEmail castObjectId now others id' b db =
     (\<lparr>status = 404, json = Message ''User not found.''\<rparr>, others db)"
  by (simp add: put_user_def findOne_email_ne_id_unknown findByIdAndUpdate_def extract_unknown
      destructure_def)

lemma no_outer_space_trim [simp]: "no_outer_space (trim s)"
  using trim_hd [of s] trim_last [of s] by (auto simp: no_outer_space_def)

lemma no_outer_space_email_setters [simp]: "no_outer_space (email_setters s)"
  by (simp add: email_setters_def)

lemma checkRequired_iff: "checkRequired v \<longleftrightarrow> (\<exists>s. v = Some s \<and> s \<noteq> [])"
  by (cases v) (simp_all add: checkRequired_def)

lemma required_failures_Nil_iff:
  "required_failures d = [] \<longleftrightarrow>
     checkRequired (name d) \<and> checkRequired (surname d) \<and> checkRequired (email d)
     \<and> checkRequired (jobTitle d)"
  by (simp add: required_failures_def)

lemma save_new_User_Inr:
  assumes "save now (new_User oid (destructure b)) db = Inr (u, db')"
  shows "db' = db @ [u] \<and> stored_from b u \<and> trimmed u \<and> doc_id u = oid
       \<and> email u \<notin> set (map email db) \<and> email_setters (email u) = email u"
proof -
  let ?d = "new_User oid (destructure b)"
  from assms have ok: "required_failures ?d = []"
    by (auto simp: save_def split: if_splits)
  then obtain n s e j where f: "name ?d = Some n" "surname ?d = Some s" "email ?d = Some e"
      "jobTitle ?d = Some j"
    unfolding required_failures_Nil_iff checkRequired_iff by blast
  from f have g: "map_option trim (b ''name'') = Some n" "map_option trim (b ''surname'') = Some s"
      "map_option email_setters (b ''email'') = Some e" "map_option trim (b ''jobTitle'') = Some j"
    by (simp_all add: new_User_def apply_setters_def destructure_def Let_def)
  from assms ok f have u: "u = \<lparr>name = n, surname = s, email = e, jobTitle = j, doc_id = doc_id ?d,
      createdAt = now, updatedAt = now\<rparr>" and db': "db' = db @ [u]"
      and fresh: "e \<notin> set (map email db)"
    by (auto simp: save_def Let_def split: if_splits)
  from g have t: "no_outer_space n" "no_outer_space s" "no_outer_space e" "no_outer_space j"
    "email_setters e = e"
    by auto
  from u g t db' fresh show ?thesis
    by (simp add: stored_from_def trimmed_def new_User_def Let_def email_setters_def)
qed


lemma findByIdAndUpdate_Inr:
  assumes "findByIdAndUpdate castObjectId now id' (destructure b) db = Inr (r, db')"
  shows "(r = None \<and> db' = db)
       \<or> (\<exists>before u after u'. r = Some u' \<and> db = before @ u # after
             \<and> db' = before @ u' # after \<and> stored_from b u' \<and> trimmed u'
             \<and> doc_id u' = doc_id u \<and> email_setters (email u') = email u'
             \<and> (email u' = email u \<or> email u' \<notin> set (map email (before @ after))))"
proof -
  let ?d = "apply_setters (destructure b)"
  from assms obtain i where i: "castObjectId id' = Some i"
    by (auto simp: findByIdAndUpdate_def split: option.splits)
  from assms i have ok: "required_failures ?d = []"
    by (auto simp: findByIdAndUpdate_def Let_def split: if_splits)
  then obtain n s e j where f: "name ?d = Some n" "surname ?d = Some s" "email ?d = Some e"
      "jobTitle ?d = Some j"
    unfolding required_failures_Nil_iff checkRequired_iff by blast
  from f have g: "map_option trim (b ''name'') = Some n" "map_option trim (b ''surname'') = Some s"
      "map_option email_setters (b ''email'') = Some e" "map_option trim (b ''jobTitle'') = Some j"
    by (simp_all add: apply_setters_def destructure_def)
  from g have t: "no_outer_space n" "no_outer_space s" "no_outer_space e" "no_outer_space j"
    "email_setters e = e"
    by auto
  show ?thesis
  proof (cases "List.extract (\<lambda>u. doc_id u = i) db")
    case None
    with assms i ok show ?thesis
      by (simp add: findByIdAndUpdate_def Let_def)
  next
    case (Some x)
    then obtain before u after where x: "x = (before, u, after)"
      by (cases x) auto
    with Some have db: "db = before @ u # after"
      by (simp add: extract_Some_iff)
    let ?u' = "u\<lparr>name := n, surname := s, email := e, jobTitle := j, updatedAt := now\<rparr>"
    from assms i ok Some x f have r: "r = Some ?u'" and db': "db' = before @ ?u' # after"
      and idx: "e = email u \<or> e \<notin> set (map email (before @ after))"
      by (auto simp: findByIdAndUpdate_def Let_def split: if_splits)
    from g t have "stored_from b ?u'" "trimmed ?u'" "email_setters (email ?u') = email ?u'"
      by (simp_all add: stored_from_def trimmed_def)
    with r db db' idx show ?thesis
      by (intro disjI2 exI [of _ before] exI [of _ u] exI [of _ after] exI [of _ ?u']) simp
  qed
qed

lemma findByIdAndDelete_Inr:
  assumes "findByIdAndDelete castObjectId id' db = Inr (r, db')"
  shows "(r = None \<and> db' = db) \<or> (\<exists>before u after. db = before @ u # after \<and> db' = before @ after)"
proof -
  from assms obtain i where i: "castObjectId id' = Some i"
    by (auto simp: findByIdAndDelete_def split: option.splits)
  show ?thesis
  proof (cases "List.extract (\<lambda>u. doc_id u = i) db")
    case None
    with assms i show ?thesis by (simp add: findByIdAndDelete_def)
  next
    case (Some x)
    then obtain before u after where x: "x = (before, u, after)"
      by (cases x) auto
    with Some have "db = before @ u # after"
      by (simp add: extract_Some_iff)
    moreover from assms i Some x have "db' = before @ after"
      by (simp add: findByIdAndDelete_def)
    ultimately show ?thesis by blast
  qed
qed

section \<open>The invariant of the collection\<close>

lemma store_inv_Nil [simp]: "store_inv []"
  by (simp add: store_inv_def)

lemma store_inv_insert:
  "store_inv db \<Longrightarrow> email_setters (email u) = email u \<Longrightarrow> email u \<notin> set (map email db) \<Longrightarrow>
   store_inv (db @ [u])"
  by (simp add: store_inv_def)

lemma store_inv_replace:
  "store_inv (before @ u # after) \<Longrightarrow> email_setters (email u') = email u' \<Longrightarrow>
   email u' = email u \<or> email u' \<notin> set (map email (before @ after)) \<Longrightarrow>
   store_inv (before @ u' # after)"
  by (fastforce simp: store_inv_def)

lemma store_inv_remove: "store_inv (before @ u # after) \<Longrightarrow> store_inv (before @ after)"
  by (simp add: store_inv_def)

lemma post_sign_up_store_inv:
  assumes "store_inv db" and "store_inv (others db)"
  shows "store_inv (snd (post_sign_up isEmail oid now others b db))"
proof (cases "save now (new_User oid (destructure b)) (others db)")
  case (Inl err)
  with assms show ?thesis
    by (simp add: post_sign_up_def Let_def split: option.splits)
next
  case (Inr x)
  then obtain u db' where x: "x = (u, db')" by (cases x)
  from save_new_User_Inr [OF Inr [unfolded x]] assms(2) have "store_inv db'"
    by (simp add: store_inv_insert)
  with assms Inr x show ?thesis
    by (simp add: post_sign_up_def Let_def split: option.splits)
qed

lemma put_user_store_inv:
  assumes "store_inv db" and "store_inv (others db)"
  shows "store_inv (snd (put_user isEmail castObjectId now others id' b db))"
proof (cases "findByIdAndUpdate castObjectId now id' (destructure b) (others db)")
  case (Inl err)
  with assms show ?thesis
    by (simp add: put_user_def Let_def split: option.splits sum.splits)
next
  case (Inr x)
  then obtain r db' where x: "x = (r, db')" by (cases x)
  from findByIdAndUpdate_Inr [OF Inr [unfolded x]] assms(2) have "store_inv db'"
    by (auto intro: store_inv_replace)
  with assms Inr x show ?thesis
    by (simp add: put_user_def Let_def split: option.splits sum.splits)
qed

lemma delete_user_store_inv:
  assumes "store_inv db"
  shows "store_inv (snd (delete_user castObjectId id' db))"
proof (cases "findByIdAndDelete castObjectId id' db")
  case (Inl err)
  with assms show ?thesis
    by (simp add: delete_user_def)
next
  case (Inr x)
  then obtain r db' where x: "x = (r, db')" by (cases x)
  from findByIdAndDelete_Inr [OF Inr [unfolded x]] assms have "store_inv db'"
    by (auto intro: store_inv_remove)
  with Inr x show ?thesis
    by (simp add: delete_user_def split: option.splits)
qed

lemma reachable_store_inv: "reachable isEmail castObjectId db \<Longrightarrow> store_inv db"
  by (induction rule: reachable.induct)
    (simp_all add: post_sign_up_store_inv put_user_store_inv delete_user_store_inv)

lemma store_inv_normalized: "store_inv db \<Longrightarrow> distinct (map normalized_email db)"
proof -
  assume inv: "store_inv db"
  then have eq: "map normalized_email db = map email db"
    by (auto simp: store_inv_def list_all_iff normalized_email_def email_setters_def)
  from inv have "distinct (map email db)"
    by (simp add: store_inv_def)
  then show ?thesis by (simp only: eq)
qed


section \<open>What the handlers leave in the collection\<close>

lemma email_destructure [simp]: "email (destructure b) = b ''email''"
  by (simp add: destructure_def)

lemma post_sign_up_persists:
  "(status (fst (post_sign_up isEmail oid now others b db)) = 201 \<longrightarrow>
      (\<exists>u. post_sign_up isEmail oid now others b db =
              (\<lparr>status = 201, json = UserDoc u\<rparr>, others db @ [u])
           \<and> stored_from b u \<and> trimmed u))
   \<and> (status (fst (post_sign_up isEmail oid now others b db)) \<noteq> 201 \<longrightarrow>
        snd (post_sign_up isEmail oid now others b db) \<in> {db, others db})"
proof (cases "validationResult isEmail b = []")
  case False
  then show ?thesis by (simp add: post_sign_up_invalid)
next
  case valid: True
  show ?thesis
  proof (cases "findOne_email (b ''email'') db")
    case (Some v)
    with valid show ?thesis by (simp add: post_sign_up_existing)
  next
    case None
    show ?thesis
    proof (cases "save now (new_User oid (destructure b)) (others db)")
      case (Inl err)
      with valid None show ?thesis by (simp add: post_sign_up_save_error)
    next
      case (Inr x)
      then obtain u db' where x: "save now (new_User oid (destructure b)) (others db) = Inr (u, db')"
        by (cases x) simp
      from save_new_User_Inr [OF x] have "db' = others db @ [u]" "stored_from b u" "trimmed u"
        by simp_all
      with valid None x show ?thesis
        by (simp add: post_sign_up_saved [where db' = db' and u = u])
    qed
  qed
qed

lemma put_user_persists:
  "(status (fst (put_user isEmail castObjectId now others id' b db)) = 200 \<longrightarrow>
      (\<exists>u. json (fst (put_user isEmail castObjectId now others id' b db)) = UserDoc u
           \<and> u \<in> set (snd (put_user isEmail castObjectId now others id' b db))
           \<and> stored_from b u \<and> trimmed u))
   \<and> (status (fst (put_user isEmail castObjectId now others id' b db)) \<noteq> 200 \<longrightarrow>
        snd (put_user isEmail castObjectId now others id' b db) \<in> {db, others db})"
proof (cases "validationResult isEmail b = []")
  case False
  then show ?thesis by (simp add: put_user_invalid)
next
  case valid: True
  show ?thesis
  proof (cases "findOne_email_ne_id castObjectId (b ''email'') id' db")
    case (Inl err)
    with valid show ?thesis by (simp add: put_user_def)
  next
    case found: (Inr v)
    show ?thesis
    proof (cases v)
      case (Some existingUser)
      with valid found show ?thesis by (simp add: put_user_def)
    next
      case None
      show ?thesis
      proof (cases "findByIdAndUpdate castObjectId now id' (destructure b) (others db)")
        case (Inl err)
        with valid found None show ?thesis by (simp add: put_user_def)
      next
        case (Inr x)
        then obtain r db' where
          x: "findByIdAndUpdate castObjectId now id' (destructure b) (others db) = Inr (r, db')"
          by (cases x) simp
        from findByIdAndUpdate_Inr [OF x] show ?thesis
        proof
          assume "r = None \<and> db' = others db"
          with valid found None x show ?thesis by (simp add: put_user_def)
        next
          assume "\<exists>before u after u'. r = Some u' \<and> others db = before @ u # after
             \<and> db' = before @ u' # after \<and> stored_from b u' \<and> trimmed u'
             \<and> doc_id u' = doc_id u \<and> email_setters (email u') = email u'
             \<and> (email u' = email u \<or> email u' \<notin> set (map email (before @ after)))"
          then obtain before after u' where "r = Some u'" "db' = before @ u' # after"
            "stored_from b u'" "trimmed u'"
            by blast
          with valid found None x show ?thesis by (simp add: put_user_def)
        qed
      qed
    qed
  qed
qed

section \<open>Example facts\<close>

lemma ann_valid: "validationResult example_isEmail ann = []"
  by code_simp

lemma ann_setters: "email_setters ''Ann@Example.COM'' = ''ann@example.com''"
  by code_simp

lemma ann_stored_inv: "store_inv [ann_stored]"
  by code_simp

lemma sign_up_ann:
  "post_sign_up example_isEmail oid1 7 id ann [] =
     (\<lparr>status = 201, json = UserDoc ann_stored\<rparr>, [ann_stored])"
  by code_simp

lemma concurrent_sign_up_Nil: "concurrent_sign_up [] = [ann_stored]"
  by (simp add: concurrent_sign_up_def sign_up_ann)

lemma hexObjectId_abc: "hexObjectId ''abc'' = None"
  by code_simp

lemma hexObjectId_unknown: "hexObjectId unknown_id = Some (ObjectId ''65f0000000000000000000aa'')"
  by code_simp

lemma blank_bob_valid: "validationResult example_isEmail blank_bob = []"
  by code_simp

lemma sign_up_bob:
  "post_sign_up example_isEmail oid2 9 id bob [ann_stored] =
     (\<lparr>status = 201, json = UserDoc bob_stored\<rparr>, [ann_stored, bob_stored])"
  by code_simp

section \<open>The validation layer\<close>

text \<open>
  C4. A create or update request in which at least one of the four fields is missing,
  empty or, for the email, no valid address is answered with 400 and the list of errors;
  the list has exactly one entry for each violating field, in the order of the fields,
  whatever the other fields are.
\<close>

theorem validation_reports_every_violating_field:
  assumes "\<exists>f\<in>set field_names. violates isEmail b f"
  shows "fst (post_sign_up isEmail oid now others b db) =
           \<lparr>status = 400, json = Errors (validationResult isEmail b)\<rparr>
       \<and> fst (put_user isEmail castObjectId now others id' b db) =
           \<lparr>status = 400, json = Errors (validationResult isEmail b)\<rparr>
       \<and> map param (validationResult isEmail b) = filter (violates isEmail b) field_names"
proof -
  from assms have "validationResult isEmail b \<noteq> []"
    by (simp add: validationResult_Nil_iff)
  then show ?thesis
    by (simp add: post_sign_up_invalid put_user_invalid validationResult_params)
qed

theorem validation_reports_every_violating_field_witness:
  "(\<exists>f\<in>set field_names. violates example_isEmail bad f)
   \<and> fst (post_sign_up example_isEmail oid1 7 id bad [ann_stored]) =
       \<lparr>status = 400, json = Errors
          [\<lparr>param = ''name'', msg = ''Name is required.'', val = Some []\<rparr>,
           \<lparr>param = ''surname'', msg = ''Surname is required.'', val = None\<rparr>,
           \<lparr>param = ''email'', msg = ''Valid email is required.'', val = Some ''not-an-email''\<rparr>]\<rparr>
   \<and> fst (put_user example_isEmail hexObjectId 7 id ''65f000000000000000000001'' bad [ann_stored]) =
       \<lparr>status = 400, json = Errors
          [\<lparr>param = ''name'', msg = ''Name is required.'', val = Some []\<rparr>,
           \<lparr>param = ''surname'', msg = ''Surname is required.'', val = None\<rparr>,
           \<lparr>param = ''email'', msg = ''Valid email is required.'', val = Some ''not-an-email''\<rparr>]\<rparr>
   \<and> map param (validationResult example_isEmail bad) = [''name'', ''surname'', ''email'']"
proof -
  have h: "\<exists>f\<in>set field_names. violates example_isEmail bad f"
    by (simp add: field_names_def violates_def bad_def)
  have v: "validationResult example_isEmail bad =
      [\<lparr>param = ''name'', msg = ''Name is required.'', val = Some []\<rparr>,
       \<lparr>param = ''surname'', msg = ''Surname is required.'', val = None\<rparr>,
       \<lparr>param = ''email'', msg = ''Valid email is required.'', val = Some ''not-an-email''\<rparr>]"
    by (simp add: validationResult_def chains_def run_chain_def notEmpty_def isEmail_chain_def
        example_isEmail_def bad_def)
  have f: "filter (violates example_isEmail bad) field_names = [''name'', ''surname'', ''email'']"
    by (simp add: field_names_def violates_def bad_def example_isEmail_def)
  show ?thesis
    using h validation_reports_every_violating_field [OF h, of oid1 7 id "[ann_stored]" hexObjectId
        "''65f000000000000000000001''"]
    by (simp only: v f)
qed

text \<open>
  C8. A create or update request that fails validation gets the 400 response with the
  validation errors, which does not depend on the collection, and the collection is left
  as it was.
\<close>

theorem invalid_request_leaves_collection:
  assumes "validationResult isEmail b \<noteq> []"
  shows "post_sign_up isEmail oid now others b db =
           (\<lparr>status = 400, json = Errors (validationResult isEmail b)\<rparr>, db)
       \<and> put_user isEmail castObjectId now others id' b db =
           (\<lparr>status = 400, json = Errors (validationResult isEmail b)\<rparr>, db)"
  using assms by (simp add: post_sign_up_invalid put_user_invalid)

theorem invalid_request_leaves_collection_witness:
  "validationResult example_isEmail bad \<noteq> []
   \<and> snd (post_sign_up example_isEmail oid2 9 id bad [ann_stored]) = [ann_stored]
   \<and> status (fst (post_sign_up example_isEmail oid2 9 id bad [ann_stored])) = 400
   \<and> snd (put_user example_isEmail hexObjectId 9 id ''65f000000000000000000001'' bad [ann_stored])
       = [ann_stored]
   \<and> status (fst (put_user example_isEmail hexObjectId 9 id ''65f000000000000000000001'' bad
       [ann_stored])) = 400"
proof -
  have h: "validationResult example_isEmail bad \<noteq> []"
    by (simp add: validationResult_def chains_def run_chain_def notEmpty_def bad_def)
  show ?thesis
    using h invalid_request_leaves_collection [OF h, of oid2 9 id "[ann_stored]" hexObjectId
        "''65f000000000000000000001''"]
    by simp
qed

text \<open>
  C9. In a create or update request, a name, surname or job title that is a non-empty
  string of white space only gets no entry in the validation errors; when no other field
  violates the rules, the validation result is empty and the handler goes on to the store.
\<close>

theorem blank_value_counts_as_present:
  assumes "f \<in> {''name'', ''surname'', ''jobTitle''}"
    and "b f = Some s" and "s \<noteq> []" and "\<forall>c\<in>set s. isWhiteSpace c"
  shows "f \<notin> set (map param (validationResult isEmail b))
       \<and> ((\<forall>g\<in>set field_names. g \<noteq> f \<longrightarrow> \<not> violates isEmail b g)
            \<longrightarrow> validationResult isEmail b = [])"
proof -
  from assms(1) have "f \<noteq> ''email''"
    by auto
  with assms(2,3) have nv: "\<not> violates isEmail b f"
    by (simp add: violates_def)
  then have absent: "f \<notin> set (map param (validationResult isEmail b))"
    unfolding validationResult_params by simp
  have "validationResult isEmail b = []"
    if others_ok: "\<forall>g\<in>set field_names. g \<noteq> f \<longrightarrow> \<not> violates isEmail b g"
  proof -
    have "\<not> violates isEmail b g" if "g \<in> set field_names" for g
      using that others_ok nv by (cases "g = f") simp_all
    then show ?thesis
      by (simp add: validationResult_Nil_iff)
  qed
  with absent show ?thesis by simp
qed

theorem blank_value_counts_as_present_witness:
  "''name'' \<in> {''name'', ''surname'', ''jobTitle''}
   \<and> blank_name ''name'' = Some ''  '' \<and> ''  '' \<noteq> [] \<and> list_all isWhiteSpace ''  ''
   \<and> ''name'' \<notin> set (map param (validationResult example_isEmail blank_name))
   \<and> validationResult example_isEmail blank_name = []"
proof -
  have h1: "''name'' \<in> {''name'', ''surname'', ''jobTitle''}" by simp
  have h2: "blank_name ''name'' = Some ''  ''" by (simp add: blank_name_def)
  have h3: "''  '' \<noteq> []" by simp
  have h4: "\<forall>c\<in>set ''  ''. isWhiteSpace c" by (simp add: isWhiteSpace_def)
  have h5: "\<forall>g\<in>set field_names. g \<noteq> ''name'' \<longrightarrow> \<not> violates example_isEmail blank_name g"
    by (simp add: field_names_def violates_def blank_name_def ann_def example_isEmail_def)
  note t = blank_value_counts_as_present
      [where f = "''name''" and b = blank_name and s = "''  ''" and isEmail = example_isEmail,
       OF h1 h2 h3 h4]
  from t have a: "''name'' \<notin> set (map param (validationResult example_isEmail blank_name))"
    by (rule conjunct1)
  from t h5 have b: "validationResult example_isEmail blank_name = []"
    by (rule conjunct2 [THEN mp])
  from h4 have h4': "list_all isWhiteSpace ''  ''"
    by (simp only: list_all_iff)
  show ?thesis
    by (intro conjI h1 h2 h3 h4' a b)
qed

section \<open>Creating a user\<close>

text \<open>
  C1. When a stored user has the email of a create request up to letter case and white
  space at the ends, the response is 400 and the collection is left as it was. The stored
  emails are fixed points of the setters, as the invariant of the collection says.
\<close>

theorem duplicate_email_is_rejected:
  assumes "store_inv db" and "u \<in> set db" and "b ''email'' = Some e"
    and "email_setters e = email_setters (email u)"
  shows "status (fst (post_sign_up isEmail oid now others b db)) = 400
       \<and> snd (post_sign_up isEmail oid now others b db) = db"
proof (cases "validationResult isEmail b = []")
  case False
  then show ?thesis by (simp add: post_sign_up_invalid)
next
  case True
  from assms(1,2) have "email_setters (email u) = email u"
    by (simp add: store_inv_def list_all_iff)
  with assms(2,4) have "email_setters e \<in> set (map email db)"
    by simp
  then have "findOne_email (b ''email'') db \<noteq> None"
    by (simp add: assms(3) findOne_email_None_iff)
  then obtain v where "findOne_email (b ''email'') db = Some v"
    by blast
  with True show ?thesis by (simp add: post_sign_up_existing)
qed

theorem duplicate_email_is_rejected_witness:
  "store_inv [ann_stored] \<and> ann_stored \<in> set [ann_stored]
   \<and> ann ''email'' = Some ''Ann@Example.COM''
   \<and> email_setters ''Ann@Example.COM'' = email_setters (email ann_stored)
   \<and> status (fst (post_sign_up example_isEmail oid2 9 id ann [ann_stored])) = 400
   \<and> snd (post_sign_up example_isEmail oid2 9 id ann [ann_stored]) = [ann_stored]"
proof -
  have h1: "store_inv [ann_stored]" by (rule ann_stored_inv)
  have h2: "ann_stored \<in> set [ann_stored]" by simp
  have h3: "ann ''email'' = Some ''Ann@Example.COM''" by (simp add: ann_def)
  have h4: "email_setters ''Ann@Example.COM'' = email_setters (email ann_stored)"
    by code_simp
  from duplicate_email_is_rejected
      [where db = "[ann_stored]" and u = ann_stored and b = ann and e = "''Ann@Example.COM''"
         and isEmail = example_isEmail and oid = oid2 and now = 9 and others = id,
       OF h1 h2 h3 h4]
  show ?thesis using h1 h2 h3 h4 by simp
qed

text \<open>
  C2, as the code has it. When a create request has passed validation and the lookup of
  its email, and the store then rejects the insert because the unique index holds the
  key, the response is the 500 of the catch block with the error of the store, not the
  400 of the lookup.
\<close>

theorem duplicate_key_at_save_is_server_error:
  assumes "validationResult isEmail b = []" and "findOne_email (b ''email'') db = None"
    and "save now (new_User oid (destructure b)) (others db) = Inl (DuplicateKey k)"
  shows "post_sign_up isEmail oid now others b db =
           (\<lparr>status = 500, json = ServerError (DuplicateKey k)\<rparr>, others db)"
  using assms by (rule post_sign_up_save_error)

theorem duplicate_key_at_save_is_server_error_witness:
  "validationResult example_isEmail ann = [] \<and> findOne_email (ann ''email'') [] = None
   \<and> save 9 (new_User oid2 (destructure ann)) (concurrent_sign_up []) =
        Inl (DuplicateKey ''email'')
   \<and> post_sign_up example_isEmail oid2 9 concurrent_sign_up ann [] =
        (\<lparr>status = 500, json = ServerError (DuplicateKey ''email'')\<rparr>, [ann_stored])"
proof -
  have h1: "validationResult example_isEmail ann = []" by (rule ann_valid)
  have h2: "findOne_email (ann ''email'') [] = None" by (simp add: findOne_email_def ann_def)
  have h3: "save 9 (new_User oid2 (destructure ann)) (concurrent_sign_up []) =
      Inl (DuplicateKey ''email'')"
    unfolding concurrent_sign_up_Nil by code_simp
  from duplicate_key_at_save_is_server_error
      [where isEmail = example_isEmail and b = ann and db = "[]" and now = 9 and oid = oid2
         and others = concurrent_sign_up and k = "''email''",
       OF h1 h2 h3]
  show ?thesis using h1 h2 h3 by (simp add: concurrent_sign_up_Nil)
qed

text \<open>
  The claim as the specification states it fails when another request signs up the same
  email between the lookup and the save: the answer is 500.
\<close>

theorem race_answers_500_counterexample:
  "validationResult example_isEmail ann = [] \<and> findOne_email (ann ''email'') [] = None
   \<and> save 9 (new_User oid2 (destructure ann)) (concurrent_sign_up []) =
        Inl (DuplicateKey ''email'')
   \<and> status (fst (post_sign_up example_isEmail oid2 9 concurrent_sign_up ann [])) = 500
   \<and> status (fst (post_sign_up example_isEmail oid2 9 concurrent_sign_up ann [])) \<noteq> 400"
  by code_simp

text \<open>
  C5, as the code has it. A create request whose four fields are strings, with a valid
  email that no stored user has (when the handler looks it up and when it saves), with a
  name, surname, job title and email that are not blank, and with a fresh \<open>_id\<close>, is
  answered 201, and the stored record has the name, surname and job title of the request
  trimmed and its email lowercased and trimmed.
\<close>

theorem create_stores_input_after_setters:
  assumes "b ''name'' = Some n" and "b ''surname'' = Some s" and "b ''email'' = Some e"
    and "b ''jobTitle'' = Some j"
    and "isEmail e"
    and "trim n \<noteq> []" and "trim s \<noteq> []" and "email_setters e \<noteq> []" and "trim j \<noteq> []"
    and "email_setters e \<notin> set (map email db)"
    and "email_setters e \<notin> set (map email (others db))"
    and "oid \<notin> set (map doc_id (others db))"
  shows "post_sign_up isEmail oid now others b db =
     (\<lparr>status = 201,
        json = UserDoc \<lparr>name = trim n, surname = trim s, email = email_setters e,
          jobTitle = trim j, doc_id = oid, createdAt = now, updatedAt = now\<rparr>\<rparr>,
      others db @ [\<lparr>name = trim n, surname = trim s, email = email_setters e,
          jobTitle = trim j, doc_id = oid, createdAt = now, updatedAt = now\<rparr>])"
proof -
  from assms(6-9) have ne: "n \<noteq> []" "s \<noteq> []" "e \<noteq> []" "j \<noteq> []"
    by auto
  with assms(1-5) have valid: "validationResult isEmail b = []"
    by (simp add: validationResult_Nil_iff field_names_def violates_def)
  from assms(3,10) have unused: "findOne_email (b ''email'') db = None"
    by (simp add: findOne_email_None_iff)
  let ?u = "\<lparr>name = trim n, surname = trim s, email = email_setters e,
          jobTitle = trim j, doc_id = oid, createdAt = now, updatedAt = now\<rparr>"
  from assms have "save now (new_User oid (destructure b)) (others db) = Inr (?u, others db @ [?u])"
    by (simp add: save_def new_User_def apply_setters_def destructure_def required_failures_def
        checkRequired_def Let_def)
  with valid unused show ?thesis
    by (simp add: post_sign_up_saved [where u = ?u and db' = "others db @ [?u]"])
qed

theorem create_stores_input_after_setters_witness:
  "ann ''name'' = Some '' Ann'' \<and> ann ''surname'' = Some ''Lee ''
   \<and> ann ''email'' = Some ''Ann@Example.COM'' \<and> ann ''jobTitle'' = Some ''Engineer''
   \<and> example_isEmail ''Ann@Example.COM''
   \<and> trim '' Ann'' \<noteq> [] \<and> trim ''Lee '' \<noteq> [] \<and> email_setters ''Ann@Example.COM'' \<noteq> []
   \<and> trim ''Engineer'' \<noteq> []
   \<and> email_setters ''Ann@Example.COM'' \<notin> set (map email [])
   \<and> email_setters ''Ann@Example.COM'' \<notin> set (map email (id []))
   \<and> oid1 \<notin> set (map doc_id (id []))
   \<and> post_sign_up example_isEmail oid1 7 id ann [] =
       (\<lparr>status = 201, json = UserDoc ann_stored\<rparr>, [ann_stored])"
proof -
  have h1: "ann ''name'' = Some '' Ann''" by (simp add: ann_def)
  have h2: "ann ''surname'' = Some ''Lee ''" by (simp add: ann_def)
  have h3: "ann ''email'' = Some ''Ann@Example.COM''" by (simp add: ann_def)
  have h4: "ann ''jobTitle'' = Some ''Engineer''" by (simp add: ann_def)
  have h5: "example_isEmail ''Ann@Example.COM''" by (simp add: example_isEmail_def)
  have v: "trim '' Ann'' = ''Ann''" "trim ''Lee '' = ''Lee''"
    "email_setters ''Ann@Example.COM'' = ''ann@example.com''" "trim ''Engineer'' = ''Engineer''"
    by code_simp+
  have h6: "trim '' Ann'' \<noteq> []" and h7: "trim ''Lee '' \<noteq> []"
    and h8: "email_setters ''Ann@Example.COM'' \<noteq> []" and h9: "trim ''Engineer'' \<noteq> []"
    by (simp_all add: v)
  have h10: "email_setters ''Ann@Example.COM'' \<notin> set (map email [])" by simp
  have h11: "email_setters ''Ann@Example.COM'' \<notin> set (map email (id []))" by simp
  have h12: "oid1 \<notin> set (map doc_id (id []))" by simp
  note t = create_stores_input_after_setters
      [where b = ann and n = "'' Ann''" and s = "''Lee ''" and e = "''Ann@Example.COM''"
         and j = "''Engineer''" and isEmail = example_isEmail and db = "[]" and others = id
         and oid = oid1 and now = 7,
       OF h1 h2 h3 h4 h5 h6 h7 h8 h9 h10 h11 h12]
  have r: "post_sign_up example_isEmail oid1 7 id ann [] =
       (\<lparr>status = 201, json = UserDoc ann_stored\<rparr>, [ann_stored])"
    using t by (simp add: v ann_stored_def)
  show ?thesis
    by (intro conjI h1 h2 h3 h4 h5 h6 h7 h8 h9 h10 h11 h12 r)
qed

text \<open>
  The claim as the specification states it fails on a name with a leading blank, which is
  stored without it, and on a blank name, for which the save throws and the answer is 500.
\<close>

theorem stored_fields_differ_from_input_counterexample:
  "ann ''name'' = Some '' Ann''
   \<and> example_isEmail ''Ann@Example.COM''
   \<and> status (fst (post_sign_up example_isEmail oid1 7 id ann [])) = 201
   \<and> map name (snd (post_sign_up example_isEmail oid1 7 id ann [])) = [''Ann'']
   \<and> '' Ann'' \<noteq> ''Ann''
   \<and> blank_bob ''email'' = Some ''bob@example.com''
   \<and> example_isEmail ''bob@example.com''
   \<and> findOne_email (blank_bob ''email'') [ann_stored] = None
   \<and> status (fst (post_sign_up example_isEmail oid2 9 id blank_bob [ann_stored])) = 500"
  by code_simp

text \<open>
  C10. A record that a create request (answered 201) or an update request (answered 200)
  leaves in the collection has the name, surname and job title of the request with the
  white space at both ends removed, and the email lowercased and trimmed alike; with any
  other answer the handler has written nothing.
\<close>

theorem stored_values_are_trimmed:
  "(status (fst (post_sign_up isEmail oid now others b db)) = 201 \<longrightarrow>
      (\<exists>u. json (fst (post_sign_up isEmail oid now others b db)) = UserDoc u
           \<and> snd (post_sign_up isEmail oid now others b db) = others db @ [u]
           \<and> stored_from b u \<and> trimmed u))
   \<and> (status (fst (post_sign_up isEmail oid now others b db)) \<noteq> 201 \<longrightarrow>
        snd (post_sign_up isEmail oid now others b db) \<in> {db, others db})
   \<and> (status (fst (put_user isEmail castObjectId now others id' b db)) = 200 \<longrightarrow>
      (\<exists>u. json (fst (put_user isEmail castObjectId now others id' b db)) = UserDoc u
           \<and> u \<in> set (snd (put_user isEmail castObjectId now others id' b db))
           \<and> stored_from b u \<and> trimmed u))
   \<and> (status (fst (put_user isEmail castObjectId now others id' b db)) \<noteq> 200 \<longrightarrow>
        snd (put_user isEmail castObjectId now others id' b db) \<in> {db, others db})"
proof -
  from post_sign_up_persists [of isEmail oid now others b db]
  have "status (fst (post_sign_up isEmail oid now others b db)) = 201 \<longrightarrow>
      (\<exists>u. json (fst (post_sign_up isEmail oid now others b db)) = UserDoc u
           \<and> snd (post_sign_up isEmail oid now others b db) = others db @ [u]
           \<and> stored_from b u \<and> trimmed u)"
    by auto
  with post_sign_up_persists [of isEmail oid now others b db]
    put_user_persists [of isEmail castObjectId now others id' b db]
  show ?thesis by blast
qed


theorem stored_values_are_trimmed_witness:
  "status (fst (post_sign_up example_isEmail oid1 7 id ann [])) = 201
   \<and> json (fst (post_sign_up example_isEmail oid1 7 id ann [])) = UserDoc ann_stored
   \<and> (\<exists>u. json (fst (post_sign_up example_isEmail oid1 7 id ann [])) = UserDoc u
          \<and> snd (post_sign_up example_isEmail oid1 7 id ann []) = id [] @ [u]
          \<and> stored_from ann u \<and> trimmed u)
   \<and> status (fst (put_user example_isEmail hexObjectId 7 id ''65f000000000000000000001'' ann
        [ann_stored])) = 200
   \<and> (\<exists>u. json (fst (put_user example_isEmail hexObjectId 7 id ''65f000000000000000000001'' ann
             [ann_stored])) = UserDoc u
          \<and> u \<in> set (snd (put_user example_isEmail hexObjectId 7 id ''65f000000000000000000001''
               ann [ann_stored]))
          \<and> stored_from ann u \<and> trimmed u)
   \<and> status (fst (post_sign_up example_isEmail oid1 7 id bad [ann_stored])) \<noteq> 201
   \<and> snd (post_sign_up example_isEmail oid1 7 id bad [ann_stored])
        \<in> {[ann_stored], id [ann_stored]}
   \<and> status (fst (put_user example_isEmail hexObjectId 7 id ''65f000000000000000000001'' bad
        [ann_stored])) \<noteq> 200
   \<and> snd (put_user example_isEmail hexObjectId 7 id ''65f000000000000000000001'' bad
        [ann_stored]) \<in> {[ann_stored], id [ann_stored]}"
proof -
  have h1: "status (fst (post_sign_up example_isEmail oid1 7 id ann [])) = 201"
    by (simp add: sign_up_ann)
  have h2: "status (fst (put_user example_isEmail hexObjectId 7 id ''65f000000000000000000001''
      ann [ann_stored])) = 200"
    by code_simp
  have h3: "json (fst (post_sign_up example_isEmail oid1 7 id ann [])) = UserDoc ann_stored"
    by (simp add: sign_up_ann)
  note t = stored_values_are_trimmed
      [where isEmail = example_isEmail and oid = oid1 and now = 7 and others = id and b = ann
         and db = "[]" and castObjectId = hexObjectId and id' = "''65f000000000000000000001''"]
  note t' = stored_values_are_trimmed
      [where isEmail = example_isEmail and oid = oid1 and now = 7 and others = id and b = ann
         and db = "[ann_stored]" and castObjectId = hexObjectId
         and id' = "''65f000000000000000000001''"]
  from t h1 have a: "\<exists>u. json (fst (post_sign_up example_isEmail oid1 7 id ann [])) = UserDoc u
          \<and> snd (post_sign_up example_isEmail oid1 7 id ann []) = id [] @ [u]
          \<and> stored_from ann u \<and> trimmed u"
    by (rule conjunct1 [THEN mp])
  from t' h2 have b: "\<exists>u. json (fst (put_user example_isEmail hexObjectId 7 id
             ''65f000000000000000000001'' ann [ann_stored])) = UserDoc u
          \<and> u \<in> set (snd (put_user example_isEmail hexObjectId 7 id ''65f000000000000000000001''
               ann [ann_stored]))
          \<and> stored_from ann u \<and> trimmed u"
    by (rule conjunct2 [THEN conjunct2, THEN conjunct1, THEN mp])
  have bad: "validationResult example_isEmail bad \<noteq> []"
    by (simp add: validationResult_def chains_def run_chain_def notEmpty_def bad_def)
  have h4: "status (fst (post_sign_up example_isEmail oid1 7 id bad [ann_stored])) \<noteq> 201"
    by (simp add: post_sign_up_invalid [OF bad])
  have h5: "status (fst (put_user example_isEmail hexObjectId 7 id ''65f000000000000000000001''
      bad [ann_stored])) \<noteq> 200"
    by (simp add: put_user_invalid [OF bad])
  note t'' = stored_values_are_trimmed
      [where isEmail = example_isEmail and oid = oid1 and now = 7 and others = id and b = bad
         and db = "[ann_stored]" and castObjectId = hexObjectId
         and id' = "''65f000000000000000000001''"]
  from t'' h4 have c: "snd (post_sign_up example_isEmail oid1 7 id bad [ann_stored])
        \<in> {[ann_stored], id [ann_stored]}"
    by (rule conjunct2 [THEN conjunct1, THEN mp])
  from t'' h5 have d: "snd (put_user example_isEmail hexObjectId 7 id
        ''65f000000000000000000001'' bad [ann_stored]) \<in> {[ann_stored], id [ann_stored]}"
    by (rule conjunct2 [THEN conjunct2, THEN conjunct2, THEN mp])
  show ?thesis
    by (intro conjI h1 h2 h3 a b h4 c h5 d)
qed

section \<open>Requests by id\<close>

text \<open>
  C3, as the code has it. When the id of the request does not cast to an ObjectId, the
  store call throws and the handler answers 500: for GET and DELETE always, for PUT when
  the body has passed validation. The collection is left as it was.
\<close>

theorem malformed_id_is_server_error:
  assumes "castObjectId id' = None"
  shows "get_user castObjectId id' db =
           (\<lparr>status = 500, json = ServerError (CastError id')\<rparr>, db)
       \<and> delete_user castObjectId id' db =
           (\<lparr>status = 500, json = ServerError (CastError id')\<rparr>, db)
       \<and> (validationResult isEmail b = [] \<longrightarrow>
            put_user isEmail castObjectId now others id' b db =
              (\<lparr>status = 500, json = ServerError (CastError id')\<rparr>, db))"
  using assms by (simp add: get_user_malformed delete_user_malformed put_user_malformed)

theorem malformed_id_is_server_error_witness:
  "hexObjectId ''abc'' = None
   \<and> get_user hexObjectId ''abc'' [ann_stored] =
       (\<lparr>status = 500, json = ServerError (CastError ''abc'')\<rparr>, [ann_stored])
   \<and> delete_user hexObjectId ''abc'' [ann_stored] =
       (\<lparr>status = 500, json = ServerError (CastError ''abc'')\<rparr>, [ann_stored])
   \<and> validationResult example_isEmail ann = []
   \<and> put_user example_isEmail hexObjectId 9 id ''abc'' ann [ann_stored] =
       (\<lparr>status = 500, json = ServerError (CastError ''abc'')\<rparr>, [ann_stored])"
proof -
  have h: "hexObjectId ''abc'' = None" by (rule hexObjectId_abc)
  from malformed_id_is_server_error
      [where castObjectId = hexObjectId and id' = "''abc''" and db = "[ann_stored]"
         and isEmail = example_isEmail and b = ann and now = 9 and others = id,
       OF h]
  show ?thesis using h ann_valid by simp
qed

text \<open>The claim as the specification states it fails on the id \<open>abc\<close>: the answer is 500.\<close>

theorem malformed_id_counterexample:
  "hexObjectId ''abc'' = None
   \<and> status (fst (get_user hexObjectId ''abc'' [ann_stored])) = 500
   \<and> status (fst (delete_user hexObjectId ''abc'' [ann_stored])) = 500
   \<and> validationResult example_isEmail ann = []
   \<and> status (fst (put_user example_isEmail hexObjectId 9 id ''abc'' ann [ann_stored])) = 500"
  by code_simp

text \<open>
  C7, as the code has it. For an id that casts to an ObjectId and is the \<open>_id\<close> of no
  stored document, GET and DELETE answer 404; PUT answers 404 when the body has passed
  validation, the schema's validators accept its paths after the setters, no stored
  document has its email, and the id is still unknown when the update runs.
\<close>

theorem unknown_id_is_not_found:
  assumes "castObjectId id' = Some i" and "i \<notin> set (map doc_id db)"
  shows "get_user castObjectId id' db =
           (\<lparr>status = 404, json = Message ''User not found.''\<rparr>, db)
       \<and> delete_user castObjectId id' db =
           (\<lparr>status = 404, json = Message ''User not found.''\<rparr>, db)
       \<and> (validationResult isEmail b = []
            \<and> required_failures (apply_setters (destructure b)) = []
            \<and> findOne_email (b ''email'') db = None
            \<and> i \<notin> set (map doc_id (others db)) \<longrightarrow>
            put_user isEmail castObjectId now others id' b db =
              (\<lparr>status = 404, json = Message ''User not found.''\<rparr>, others db))"
  using assms by (simp add: get_user_unknown delete_user_unknown put_user_unknown)

theorem unknown_id_is_not_found_witness:
  "hexObjectId unknown_id = Some (ObjectId ''65f0000000000000000000aa'')
   \<and> ObjectId ''65f0000000000000000000aa'' \<notin> set (map doc_id [ann_stored])
   \<and> status (fst (get_user hexObjectId unknown_id [ann_stored])) = 404
   \<and> status (fst (delete_user hexObjectId unknown_id [ann_stored])) = 404
   \<and> validationResult example_isEmail bob = []
   \<and> required_failures (apply_setters (destructure bob)) = []
   \<and> findOne_email (bob ''email'') [ann_stored] = None
   \<and> status (fst (put_user example_isEmail hexObjectId 9 id unknown_id bob [ann_stored])) = 404"
proof -
  have h1: "hexObjectId unknown_id = Some (ObjectId ''65f0000000000000000000aa'')"
    by (rule hexObjectId_unknown)
  have h2: "ObjectId ''65f0000000000000000000aa'' \<notin> set (map doc_id [ann_stored])"
    by (simp add: ann_stored_def oid1_def)
  have h3: "validationResult example_isEmail bob = []" by code_simp
  have h4: "required_failures (apply_setters (destructure bob)) = []" by code_simp
  have h5: "findOne_email (bob ''email'') [ann_stored] = None" by code_simp
  have h6: "ObjectId ''65f0000000000000000000aa'' \<notin> set (map doc_id (id [ann_stored]))"
    using h2 by simp
  from unknown_id_is_not_found
      [where castObjectId = hexObjectId and id' = unknown_id and db = "[ann_stored]"
         and i = "ObjectId ''65f0000000000000000000aa''"
         and isEmail = example_isEmail and b = bob and now = 9 and others = id,
       OF h1 h2]
  show ?thesis using h1 h2 h3 h4 h5 h6 by simp
qed

text \<open>
  The claim as the specification states it fails on the id \<open>abc\<close>, which matches no
  record (500), and on an update of an unknown id whose email a stored user has (400) or
  whose name is blank (500).
\<close>

theorem unknown_id_counterexample:
  "status (fst (get_user hexObjectId ''abc'' [ann_stored])) = 500
   \<and> hexObjectId unknown_id = Some (ObjectId ''65f0000000000000000000aa'')
   \<and> ObjectId ''65f0000000000000000000aa'' \<notin> set (map doc_id [ann_stored])
   \<and> validationResult example_isEmail ann = []
   \<and> status (fst (put_user example_isEmail hexObjectId 9 id unknown_id ann [ann_stored])) = 400
   \<and> validationResult example_isEmail blank_bob = []
   \<and> status (fst (put_user example_isEmail hexObjectId 9 id unknown_id blank_bob [ann_stored]))
       = 500"
  by code_simp

section \<open>Uniqueness of the email\<close>

text \<open>
  C6. In every collection that the handlers can produce from the empty one, in any
  interleaving of create, update and delete requests, no two records have the same
  normalized email.
\<close>

theorem normalized_emails_are_unique:
  assumes "reachable isEmail castObjectId db"
  shows "distinct (map normalized_email db)"
  using assms by (intro store_inv_normalized reachable_store_inv)

theorem normalized_emails_are_unique_witness:
  "reachable example_isEmail hexObjectId [ann_stored, bob_stored]
   \<and> distinct (map normalized_email [ann_stored, bob_stored])"
proof -
  have r0: "reachable example_isEmail hexObjectId []"
    by (rule reachable.start)
  have "reachable example_isEmail hexObjectId
      (snd (post_sign_up example_isEmail oid1 7 id ann []))"
    by (rule reachable.create [where others = id]) (simp_all add: r0)
  then have r1: "reachable example_isEmail hexObjectId [ann_stored]"
    by (simp add: sign_up_ann)
  have "reachable example_isEmail hexObjectId
      (snd (post_sign_up example_isEmail oid2 9 id bob [ann_stored]))"
    by (rule reachable.create [where others = id]) (simp_all add: r1)
  then have r2: "reachable example_isEmail hexObjectId [ann_stored, bob_stored]"
    by (simp add: sign_up_bob)
  from normalized_emails_are_unique [OF r2] r2 show ?thesis
    by simp
qed

end
